theory Spec2Isabelle
  imports Main
begin

section \<open>Digital-signage backend: activation codes, device registration, presence\<close>

text \<open>
  A shallow embedding of the request handlers of \<^verbatim>\<open>src/routers/code.py\<close>,
  \<^verbatim>\<open>src/routers/device.py\<close> and \<^verbatim>\<open>src/routers/setup.py\<close>.
  The Redis server and the relational store are explicit state; a handler is a function
  from the state (and the values it draws from the random generator or the clock) to its
  result and the new state. A raised \<^verbatim>\<open>HTTPException\<close> is the \<open>Inl\<close> branch of the result.
\<close>

subsection \<open>Python's \<^verbatim>\<open>str\<close> of an integer\<close>

text \<open>
  Channel names and error details are built with f-strings from integers
  (\<^verbatim>\<open>f"device:{device.id}:instructions"\<close>), so the decimal rendering is part of
  the model.
\<close>

definition digit_char :: "nat \<Rightarrow> char" where
  "digit_char d = ''0123456789'' ! d"

fun str_nat :: "nat \<Rightarrow> string" where
  "str_nat n = (if n < 10 then [digit_char n] else str_nat (n div 10) @ [digit_char (n mod 10)])"

declare str_nat.simps [simp del]

definition str_int :: "int \<Rightarrow> string" where
  "str_int i = (if i < 0 then CHR ''-'' # str_nat (nat (- i)) else str_nat (nat i))"

text \<open>Reading a decimal rendering back, to show that it determines the number.\<close>

definition digit_value :: "char \<Rightarrow> nat" where
  "digit_value ch = of_char ch - 48"

definition parse_nat :: "string \<Rightarrow> nat" where
  "parse_nat cs = foldl (\<lambda>a ch. 10 * a + digit_value ch) 0 cs"

subsection \<open>JSON documents and HTTP errors\<close>

text \<open>
  The payload handed to \<^verbatim>\<open>json.dumps\<close> is kept as the document itself (an object is
  its list of members, in the order the source writes them); the serialisation to text is
  the library's.
\<close>

datatype json = JString string | JInt int | JObject "(string \<times> json) list"

text \<open>\<^verbatim>\<open>HTTPException(status_code=..., detail=...)\<close>.\<close>

datatype http_error = HTTPException nat string

definition HTTP_400_BAD_REQUEST :: nat where "HTTP_400_BAD_REQUEST = 400"
definition HTTP_404_NOT_FOUND :: nat where "HTTP_404_NOT_FOUND = 404"
definition HTTP_409_CONFLICT :: nat where "HTTP_409_CONFLICT = 409"

subsection \<open>The state: device table and Redis\<close>

text \<open>The \<^verbatim>\<open>Device\<close> table of \<^verbatim>\<open>src/models/device.py\<close>; \<open>last_seen\<close> is a clock reading.\<close>

record device =
  device_id :: int
  device_name :: string
  device_location :: string
  device_last_seen :: int
  device_api_key :: string
  device_setup_id :: "int option"

text \<open>
  The tables of \<^verbatim>\<open>src/models/setup.py\<close>: \<^verbatim>\<open>Setup\<close>, \<^verbatim>\<open>Playlist\<close>, \<^verbatim>\<open>Image\<close>,
  \<^verbatim>\<open>Video\<close>.
\<close>

record setup_row =
  setup_id :: int
  setup_name :: string

record playlist_row =
  playlist_id :: int
  playlist_name :: string
  playlist_start_time :: string
  playlist_end_time :: string
  playlist_monday :: bool
  playlist_tuesday :: bool
  playlist_wednesday :: bool
  playlist_thursday :: bool
  playlist_friday :: bool
  playlist_saturday :: bool
  playlist_sunday :: bool
  playlist_setup_id :: int

record image_row =
  image_id :: int
  image_url :: string
  image_duration :: int
  image_playlist_id :: int

record video_row =
  video_id :: int
  video_url :: string
  video_playlist_id :: int

text \<open>
  The relational store holds the tables and their auto-increment counters. Redis holds
  the key \<^verbatim>\<open>activation_code_counter\<close>, the set \<^verbatim>\<open>online_devices\<close> and the pub/sub
  channels: \<open>numsub\<close> is what \<^verbatim>\<open>PUBSUB NUMSUB\<close> reports for a channel, \<open>published\<close> is
  the log of \<^verbatim>\<open>PUBLISH\<close> calls, oldest first. \<open>pending_code_streams\<close> is the server's
  own: the codes of the streaming responses that \<^verbatim>\<open>get_device_status_by_code\<close> has
  returned and whose generator has not run yet.
\<close>

record state =
  devices :: "device list"
  next_device_id :: int
  setups :: "setup_row list"
  next_setup_id :: int
  playlists :: "playlist_row list"
  next_playlist_id :: int
  images :: "image_row list"
  next_image_id :: int
  videos :: "video_row list"
  next_video_id :: int
  activation_code_counter :: "int option"
  online_devices :: "int set"
  numsub :: "string \<Rightarrow> nat"
  published :: "(string \<times> json) list"
  pending_code_streams :: "string list"

definition initial_state :: state where
  "initial_state = \<lparr>devices = [], next_device_id = 1, setups = [], next_setup_id = 1,
     playlists = [], next_playlist_id = 1, images = [], next_image_id = 1,
     videos = [], next_video_id = 1, activation_code_counter = None,
     online_devices = {}, numsub = (\<lambda>_. 0), published = [],
     pending_code_streams = []\<rparr>"

text \<open>The Redis commands the handlers call.\<close>

definition redis_exists_counter :: "state \<Rightarrow> nat" where
  "redis_exists_counter s = (case activation_code_counter s of None \<Rightarrow> 0 | Some _ \<Rightarrow> 1)"

definition redis_set_counter :: "int \<Rightarrow> state \<Rightarrow> state" where
  "redis_set_counter v s = s\<lparr>activation_code_counter := Some v\<rparr>"

text \<open>\<^verbatim>\<open>INCR\<close> creates a missing key at 0 before it increments.\<close>

definition redis_incr_counter :: "state \<Rightarrow> int \<times> state" where
  "redis_incr_counter s =
     (let v = (case activation_code_counter s of None \<Rightarrow> 0 | Some c \<Rightarrow> c) + 1
      in (v, s\<lparr>activation_code_counter := Some v\<rparr>))"

definition pubsub_numsub :: "string \<Rightarrow> state \<Rightarrow> nat" where
  "pubsub_numsub channel s = numsub s channel"

definition publish :: "string \<Rightarrow> json \<Rightarrow> state \<Rightarrow> state" where
  "publish channel message s = s\<lparr>published := published s @ [(channel, message)]\<rparr>"

definition subscribe :: "string \<Rightarrow> state \<Rightarrow> state" where
  "subscribe channel s = s\<lparr>numsub := (numsub s)(channel := Suc (numsub s channel))\<rparr>"

definition unsubscribe :: "string \<Rightarrow> state \<Rightarrow> state" where
  "unsubscribe channel s = s\<lparr>numsub := (numsub s)(channel := numsub s channel - 1)\<rparr>"

definition sadd_online :: "int \<Rightarrow> state \<Rightarrow> state" where
  "sadd_online d s = s\<lparr>online_devices := insert d (online_devices s)\<rparr>"

definition srem_online :: "int \<Rightarrow> state \<Rightarrow> state" where
  "srem_online d s = s\<lparr>online_devices := online_devices s - {d}\<rparr>"

subsection \<open>Issuing activation codes (\<^verbatim>\<open>get_unique_activation_code\<close>)\<close>

text \<open>
  \<^verbatim>\<open>random.randint(100_000_000, 900_000_000)\<close> returns an integer \<open>N\<close> with
  \<open>100_000_000 \<le> N \<le> 900_000_000\<close>: both end points are included.
\<close>

definition randint_seed :: "int \<Rightarrow> bool" where
  "randint_seed r = (100000000 \<le> r \<and> r \<le> 900000000)"

text \<open>
  The handler draws at most two seeds: \<open>fst rnd\<close> is the draw of line 29 (first use),
  \<open>snd rnd\<close> the draw of line 35 (reset); a draw the run does not reach is not used.
\<close>

definition get_unique_activation_code :: "int \<times> int \<Rightarrow> state \<Rightarrow> int \<times> state" where
  "get_unique_activation_code rnd s =
     (let s1 = (if redis_exists_counter s = 0 then redis_set_counter (fst rnd) s else s);
          (unique_code, s2) = redis_incr_counter s1
      in if unique_code \<ge> 999999999
         then redis_incr_counter (redis_set_counter (snd rnd) s2)
         else (unique_code, s2))"

subsection \<open>Registering a device (\<^verbatim>\<open>create_device\<close>)\<close>

text \<open>\<^verbatim>\<open>DeviceInput\<close>: the request body.\<close>

record device_input =
  input_name :: string
  input_location :: string
  input_setup_id :: "int option"
  input_code :: int

text \<open>\<^verbatim>\<open>session.exec(select(Device).filter_by(...)).first()\<close>: the first matching row, if any.\<close>

definition first_device_by_name :: "string \<Rightarrow> state \<Rightarrow> device option" where
  "first_device_by_name n s = find (\<lambda>d. device_name d = n) (devices s)"

definition first_device_by_api_key :: "string \<Rightarrow> state \<Rightarrow> device option" where
  "first_device_by_api_key k s = find (\<lambda>d. device_api_key d = k) (devices s)"

definition first_device_by_id :: "int \<Rightarrow> state \<Rightarrow> device option" where
  "first_device_by_id i s = find (\<lambda>d. device_id d = i) (devices s)"

text \<open>
  The loop of lines 63-67. \<open>keys k\<close> is what the \<open>k\<close>-th call of \<^verbatim>\<open>generate_api_key()\<close>
  (\<^verbatim>\<open>secrets.token_urlsafe(32)\<close>) returns; the loop has no bound, so not returning is
  the value \<open>None\<close>.
\<close>

partial_function (option) unique_api_key :: "(nat \<Rightarrow> string) \<Rightarrow> state \<Rightarrow> nat \<Rightarrow> string option" where
  "unique_api_key keys s k =
     (let api_key = keys k;
          api_key_exists = first_device_by_api_key api_key s
      in if api_key_exists = None then Some api_key else unique_api_key keys s (Suc k))"

text \<open>\<^verbatim>\<open>session.add(new_device); session.commit()\<close>: the row gets the next primary key.\<close>

definition add_device :: "string \<Rightarrow> string \<Rightarrow> int \<Rightarrow> string \<Rightarrow> state \<Rightarrow> device \<times> state" where
  "add_device n loc now api_key s =
     (let new_device = \<lparr>device_id = next_device_id s, device_name = n, device_location = loc,
            device_last_seen = now, device_api_key = api_key, device_setup_id = None\<rparr>
      in (new_device, s\<lparr>devices := devices s @ [new_device], next_device_id := next_device_id s + 1\<rparr>))"

text \<open>
  \<open>now\<close> is \<^verbatim>\<open>datetime.now(timezone.utc)\<close>. The result is \<open>None\<close> when the key loop
  never ends.
\<close>

definition create_device ::
  "device_input \<Rightarrow> (nat \<Rightarrow> string) \<Rightarrow> int \<Rightarrow> state \<Rightarrow> ((http_error + device) \<times> state) option" where
  "create_device data keys now s =
     (let channel = str_int (input_code data);
          channel_subscriber_number = pubsub_numsub channel s
      in if channel_subscriber_number = 0
         then Some (Inl (HTTPException HTTP_404_NOT_FOUND
                (''No Client awaiting with the following pin: '' @ str_int (input_code data))), s)
         else if first_device_by_name (input_name data) s \<noteq> None
         then Some (Inl (HTTPException HTTP_409_CONFLICT
                (''Device name '' @ input_name data @ '' already exsist.'')), s)
         else (case unique_api_key keys s 0 of
                 None \<Rightarrow> None
               | Some api_key \<Rightarrow>
                   (let (new_device, s1) = add_device (input_name data) (input_location data) now api_key s;
                        s2 = publish channel
                               (JObject [(''name'', JString (device_name new_device)),
                                         (''api_key'', JString (device_api_key new_device))]) s1
                    in Some (Inr new_device, s2))))"

subsection \<open>The snapshot instruction (\<^verbatim>\<open>send_snapshot_instruction\<close>)\<close>

definition instruction_channel :: "int \<Rightarrow> string" where
  "instruction_channel i = ''device:'' @ str_int i @ '':instructions''"

definition send_snapshot_instruction :: "string \<Rightarrow> int \<Rightarrow> state \<Rightarrow> (http_error + json) \<times> state" where
  "send_snapshot_instruction url dev_id s =
     (case first_device_by_id dev_id s of
        None \<Rightarrow> (Inl (HTTPException HTTP_404_NOT_FOUND (''Device '' @ str_int dev_id @ '' not found'')), s)
      | Some device \<Rightarrow>
          if pubsub_numsub (instruction_channel (device_id device)) s = 0
          then (Inl (HTTPException HTTP_409_CONFLICT (''Device '' @ str_int dev_id @ '' is offline'')), s)
          else (let instruction = JObject [(''instruction'', JString ''snapshot''), (''url'', JString url)]
                in (Inr (JObject [(''detail'', JString ''Instruction sent successfully'')]),
                    publish (instruction_channel (device_id device)) instruction s)))"

subsection \<open>The device session (\<^verbatim>\<open>get_current_device_instructions\<close>)\<close>

text \<open>\<^verbatim>\<open>get_device_from_api_key\<close> of \<^verbatim>\<open>src/dependencies.py\<close>.\<close>

definition HTTP_401_UNAUTHORIZED :: nat where "HTTP_401_UNAUTHORIZED = 401"

definition get_device_from_api_key :: "string \<Rightarrow> state \<Rightarrow> http_error + device" where
  "get_device_from_api_key api_key s =
     (case first_device_by_api_key api_key s of
        None \<Rightarrow> Inl (HTTPException HTTP_401_UNAUTHORIZED ''Api key not valid'')
      | Some device \<Rightarrow> Inr device)"

text \<open>\<^verbatim>\<open>device.last_seen = ...; session.add(device); session.commit()\<close>.\<close>

definition set_last_seen :: "int \<Rightarrow> int \<Rightarrow> state \<Rightarrow> state" where
  "set_last_seen dev now s =
     s\<lparr>devices := map (\<lambda>d. if device_id d = dev then d\<lparr>device_last_seen := now\<rparr> else d) (devices s)\<rparr>"

definition status_message :: "int \<Rightarrow> string \<Rightarrow> json" where
  "status_message dev st = JObject [(''id'', JInt dev), (''status'', JString st)]"

text \<open>The handler up to the streaming response (lines 206-212).\<close>

definition get_current_device_instructions :: "device \<Rightarrow> int \<Rightarrow> state \<Rightarrow> state" where
  "get_current_device_instructions device now s =
     (let s1 = set_last_seen (device_id device) now s;
          s2 = publish ''devices:status'' (status_message (device_id device) ''online'') s1
      in sadd_online (device_id device) s2)"

text \<open>The generator's first step (lines 216-217): the subscription.\<close>

definition device_event_generator_start :: "device \<Rightarrow> state \<Rightarrow> state" where
  "device_event_generator_start device s = subscribe (instruction_channel (device_id device)) s"

text \<open>The \<^verbatim>\<open>except asyncio.CancelledError\<close> block of \<^verbatim>\<open>message_listener\<close> (lines 226-230).\<close>

definition device_message_listener_cancelled :: "device \<Rightarrow> state \<Rightarrow> state" where
  "device_message_listener_cancelled device s =
     (let s1 = srem_online (device_id device) s;
          s2 = publish ''devices:status'' (status_message (device_id device) ''offline'') s1
      in unsubscribe (instruction_channel (device_id device)) s2)"

text \<open>The \<^verbatim>\<open>finally\<close> block of the generator (lines 249-255), after the two cancellations.\<close>

definition device_event_generator_finally :: "device \<Rightarrow> int \<Rightarrow> state \<Rightarrow> state" where
  "device_event_generator_finally device now s = set_last_seen (device_id device) now s"

subsection \<open>The activation-code stream (\<^verbatim>\<open>get_device_status_by_code\<close>)\<close>

text \<open>The handler (lines 70-76): it only reads the subscriber count.\<close>

definition get_device_status_by_code :: "string \<Rightarrow> state \<Rightarrow> http_error + unit" where
  "get_device_status_by_code code s =
     (let channel_subscriber_number = pubsub_numsub code s
      in if channel_subscriber_number \<noteq> 0
         then Inl (HTTPException HTTP_400_BAD_REQUEST ''Code is not available pelas request another one'')
         else Inr ())"

text \<open>The generator's subscription (line 81) and its release (lines 93 and 135).\<close>

definition code_event_generator_start :: "string \<Rightarrow> state \<Rightarrow> state" where
  "code_event_generator_start code s = subscribe code s"

definition code_event_generator_finally :: "string \<Rightarrow> state \<Rightarrow> state" where
  "code_event_generator_finally code s = unsubscribe code s"

subsection \<open>The status stream (\<^verbatim>\<open>get_all_devices_status\<close>)\<close>

text \<open>
  A frame is \<^verbatim>\<open>event: <name>\ndata: <payload>\n\n\<close>. The payload is a JSON document as it
  came over the channel, the list of the members of \<^verbatim>\<open>online_devices\<close>, or a literal text.
\<close>

datatype sse_data = Data_json json | Data_members "int set" | Data_text string

datatype frame = Frame string sse_data

text \<open>
  What reaches the internal queue, in arrival order: a pub/sub message with its
  \<^verbatim>\<open>type\<close> and \<^verbatim>\<open>data\<close>, or a tick of the heartbeat timer.
\<close>

datatype arrival = Pubsub string json | Heartbeat_tick

fun status_queue_put :: "arrival \<Rightarrow> frame list" where
  "status_queue_put (Pubsub ty d) = (if ty = ''message'' then [Frame ''update'' (Data_json d)] else [])"
| "status_queue_put Heartbeat_tick = [Frame ''heartbeat'' (Data_text ''heartbeat'')]"

text \<open>
  The generator (lines 271-303) run over the arrivals that came before the client left:
  the subscription, the snapshot frame, then the queue in order.
\<close>

definition get_all_devices_status :: "arrival list \<Rightarrow> state \<Rightarrow> frame list \<times> state" where
  "get_all_devices_status arrivals s =
     (let s1 = subscribe ''devices:status'' s;
          init_devices = online_devices s1;
          init_response = Frame ''message'' (Data_members init_devices)
      in (init_response # concat (map status_queue_put arrivals), s1))"

text \<open>Frames by their event name: the deltas of the status stream and its snapshot.\<close>

fun is_update :: "frame \<Rightarrow> bool" where
  "is_update (Frame ev d) = (ev = ''update'')"

fun is_snapshot :: "frame \<Rightarrow> bool" where
  "is_snapshot (Frame ev d) = (ev = ''message'')"

definition status_event_generator_finally :: "state \<Rightarrow> state" where
  "status_event_generator_finally s = unsubscribe ''devices:status'' s"

subsection \<open>Creating a setup (\<^verbatim>\<open>create_setup\<close>)\<close>

text \<open>The request body: \<^verbatim>\<open>ImageBase\<close>, \<^verbatim>\<open>PlaylistInput\<close>, \<^verbatim>\<open>SetupInput\<close>.\<close>

record image_base =
  base_url :: string
  base_duration :: int

record playlist_input =
  pl_name :: string
  pl_start_time :: string
  pl_end_time :: string
  pl_monday :: bool
  pl_tuesday :: bool
  pl_wednesday :: bool
  pl_thursday :: bool
  pl_friday :: bool
  pl_saturday :: bool
  pl_sunday :: bool
  pl_images :: "image_base list"
  pl_videos :: "string list"

record setup_input =
  in_name :: string
  in_playlists :: "playlist_input list"
  in_devices :: "int list"

text \<open>The response: \<^verbatim>\<open>SetupOutput\<close> with its \<^verbatim>\<open>DeviceSetupOutput\<close> and \<^verbatim>\<open>PlaylistOutput\<close> parts.\<close>

record playlist_output =
  out_playlist :: playlist_row
  out_images :: "image_row list"
  out_videos :: "video_row list"

record setup_output =
  out_name :: string
  out_id :: int
  out_devices :: "(int \<times> string) list"
  out_data :: "playlist_output list"

text \<open>
  What the \<^verbatim>\<open>try\<close> block can raise: an \<^verbatim>\<open>HTTPException\<close>, the \<^verbatim>\<open>ValueError\<close> of
  \<^verbatim>\<open>datetime.strptime\<close>, or the error of reading a local variable that was never bound.
\<close>

datatype exn = Http http_error | ValueError | UnboundLocalError

text \<open>
  \<^verbatim>\<open>datetime.strptime(_, "%H:%M")\<close> is the standard library's: it is the parameter
  \<open>strptime\<close>, which returns the minutes since midnight, or \<open>None\<close> where the library
  raises \<^verbatim>\<open>ValueError\<close>.
\<close>

definition quote_char :: char where
  "quote_char = CHR 0x27"

definition days :: "(string \<times> (playlist_input \<Rightarrow> bool)) list" where
  "days = [(''monday'', pl_monday), (''tuesday'', pl_tuesday), (''wednesday'', pl_wednesday),
           (''thursday'', pl_thursday), (''friday'', pl_friday), (''saturday'', pl_saturday),
           (''sunday'', pl_sunday)]"

text \<open>The loop of lines 110-117 over the sorted playlists of one day.\<close>

fun check_adjacent :: "(string \<Rightarrow> int option) \<Rightarrow> string \<Rightarrow> playlist_input list \<Rightarrow> exn option" where
  "check_adjacent strptime day (p # q # rest) =
     (case strptime (pl_end_time p) of
        None \<Rightarrow> Some ValueError
      | Some current_end \<Rightarrow>
          (case strptime (pl_start_time q) of
             None \<Rightarrow> Some ValueError
           | Some next_start \<Rightarrow>
               if current_end > next_start
               then Some (Http (HTTPException HTTP_400_BAD_REQUEST
                      (''Playlists '' @ [quote_char] @ pl_name p @ [quote_char] @ '' and '' @
                       [quote_char] @ pl_name q @ [quote_char] @ '' overlap on '' @ day)))
               else check_adjacent strptime day (q # rest)))"
| "check_adjacent strptime day ps = None"

text \<open>Lines 104-107: the playlists of the day, sorted by start time (the sort is stable).\<close>

definition check_day :: "(string \<Rightarrow> int option) \<Rightarrow> string \<Rightarrow> (playlist_input \<Rightarrow> bool) \<Rightarrow> playlist_input list \<Rightarrow> exn option" where
  "check_day strptime day flag pls =
     (let day_playlists = filter flag pls
      in if list_ex (\<lambda>p. strptime (pl_start_time p) = None) day_playlists
         then Some ValueError
         else check_adjacent strptime day
                (sort_key (\<lambda>p. the (strptime (pl_start_time p))) day_playlists))"

fun check_days :: "(string \<Rightarrow> int option) \<Rightarrow> (string \<times> (playlist_input \<Rightarrow> bool)) list \<Rightarrow> playlist_input list \<Rightarrow> exn option" where
  "check_days strptime [] pls = None"
| "check_days strptime ((day, flag) # rest) pls =
     (case check_day strptime day flag pls of
        Some e \<Rightarrow> Some e
      | None \<Rightarrow> check_days strptime rest pls)"

fun add_images :: "int \<Rightarrow> image_base list \<Rightarrow> state \<Rightarrow> state" where
  "add_images pid [] s = s"
| "add_images pid (img # rest) s =
     add_images pid rest
       (s\<lparr>images := images s @ [\<lparr>image_id = next_image_id s, image_url = base_url img,
              image_duration = base_duration img, image_playlist_id = pid\<rparr>],
          next_image_id := next_image_id s + 1\<rparr>)"

fun add_videos :: "int \<Rightarrow> string list \<Rightarrow> state \<Rightarrow> state" where
  "add_videos pid [] s = s"
| "add_videos pid (vid_url # rest) s =
     add_videos pid rest
       (s\<lparr>videos := videos s @ [\<lparr>video_id = next_video_id s, video_url = vid_url,
              video_playlist_id = pid\<rparr>],
          next_video_id := next_video_id s + 1\<rparr>)"

text \<open>The loop of lines 125-164.\<close>

fun add_playlists :: "(string \<Rightarrow> int option) \<Rightarrow> int \<Rightarrow> playlist_input list \<Rightarrow> state \<Rightarrow> exn + state" where
  "add_playlists strptime sid [] s = Inr s"
| "add_playlists strptime sid (playlist_data # rest) s =
     (if length (pl_images playlist_data) = 0 \<and> length (pl_videos playlist_data) = 0
      then Inl (Http (HTTPException HTTP_400_BAD_REQUEST
             (''Playlist '' @ pl_name playlist_data @ '' must have at least one image or video'')))
      else (case strptime (pl_start_time playlist_data) of
              None \<Rightarrow> Inl ValueError
            | Some start_time \<Rightarrow>
                (case strptime (pl_end_time playlist_data) of
                   None \<Rightarrow> Inl ValueError
                 | Some end_time \<Rightarrow>
                     if start_time \<ge> end_time
                     then Inl (Http (HTTPException HTTP_400_BAD_REQUEST
                            (''Playlist '' @ pl_name playlist_data @ '' start_time must be before end_time'')))
                     else (let new_playlist = \<lparr>playlist_id = next_playlist_id s,
                                 playlist_name = pl_name playlist_data,
                                 playlist_start_time = pl_start_time playlist_data,
                                 playlist_end_time = pl_end_time playlist_data,
                                 playlist_monday = pl_monday playlist_data,
                                 playlist_tuesday = pl_tuesday playlist_data,
                                 playlist_wednesday = pl_wednesday playlist_data,
                                 playlist_thursday = pl_thursday playlist_data,
                                 playlist_friday = pl_friday playlist_data,
                                 playlist_saturday = pl_saturday playlist_data,
                                 playlist_sunday = pl_sunday playlist_data,
                                 playlist_setup_id = sid\<rparr>;
                               s1 = s\<lparr>playlists := playlists s @ [new_playlist],
                                      next_playlist_id := next_playlist_id s + 1\<rparr>;
                               s2 = add_images (playlist_id new_playlist) (pl_images playlist_data) s1;
                               s3 = add_videos (playlist_id new_playlist) (pl_videos playlist_data) s2
                           in add_playlists strptime sid rest s3))))"

text \<open>
  The loop of lines 167-175. The third argument is the local variable \<^verbatim>\<open>device\<close>:
  \<open>None\<close> while it is unbound, then the row the last iteration found.
\<close>

fun link_devices :: "int \<Rightarrow> int list \<Rightarrow> device option \<Rightarrow> state \<Rightarrow> exn + (device option \<times> state)" where
  "link_devices sid [] device s = Inr (device, s)"
| "link_devices sid (dev_id # rest) device s =
     (case first_device_by_id dev_id s of
        None \<Rightarrow> Inl (Http (HTTPException HTTP_404_NOT_FOUND
                  (''Device with id '' @ str_int dev_id @ '' not found'')))
      | Some found \<Rightarrow>
          (let linked = found\<lparr>device_setup_id := Some sid\<rparr>
           in link_devices sid rest (Some linked)
                (s\<lparr>devices := map (\<lambda>d. if device_id d = device_id linked then linked else d) (devices s)\<rparr>)))"

text \<open>
  The loop of lines 180-182: it iterates over \<^verbatim>\<open>data.devices\<close> and publishes on the
  channel of the variable \<^verbatim>\<open>device\<close>.
\<close>

fun notify_devices :: "int list \<Rightarrow> device option \<Rightarrow> state \<Rightarrow> exn + state" where
  "notify_devices [] device s = Inr s"
| "notify_devices (dev_id # rest) device s =
     (case device of
        None \<Rightarrow> Inl UnboundLocalError
      | Some d \<Rightarrow>
          (let instruction = JObject [(''instruction'', JString ''update_setup'')]
           in notify_devices rest device (publish (instruction_channel (device_id d)) instruction s)))"

definition to_setup_model :: "device \<Rightarrow> int \<times> string" where
  "to_setup_model device = (device_id device, device_name device @ '' - '' @ device_location device)"

definition setup_structure :: "setup_row \<Rightarrow> state \<Rightarrow> setup_output" where
  "setup_structure new_setup s =
     \<lparr>out_name = setup_name new_setup, out_id = setup_id new_setup,
      out_devices = map to_setup_model
        (filter (\<lambda>d. device_setup_id d = Some (setup_id new_setup)) (devices s)),
      out_data = map (\<lambda>p. \<lparr>out_playlist = p,
                            out_images = filter (\<lambda>i. image_playlist_id i = playlist_id p) (images s),
                            out_videos = filter (\<lambda>v. video_playlist_id v = playlist_id p) (videos s)\<rparr>)
        (filter (\<lambda>p. playlist_setup_id p = setup_id new_setup) (playlists s))\<rparr>"

text \<open>
  The handler. An exception before \<^verbatim>\<open>session.commit()\<close> rolls the store back, so the
  state is the one the request found.
\<close>

definition create_setup :: "(string \<Rightarrow> int option) \<Rightarrow> setup_input \<Rightarrow> state \<Rightarrow> (exn + setup_output) \<times> state" where
  "create_setup strptime data s =
     (let name_exists = find (\<lambda>r. setup_name r = in_name data) (setups s)
      in if name_exists \<noteq> None
         then (Inl (Http (HTTPException HTTP_409_CONFLICT
                 (''Name '' @ in_name data @ '' already in use.''))), s)
         else (let playlist_names = map pl_name (in_playlists data)
               in if length playlist_names \<noteq> card (set playlist_names)
                  then (Inl (Http (HTTPException HTTP_400_BAD_REQUEST
                          ''Playlist name must be unqiue within a setip'')), s)
                  else (case check_days strptime days (in_playlists data) of
                          Some e \<Rightarrow> (Inl e, s)
                        | None \<Rightarrow>
                            (let new_setup = \<lparr>setup_id = next_setup_id s, setup_name = in_name data\<rparr>;
                                 s1 = s\<lparr>setups := setups s @ [new_setup],
                                        next_setup_id := next_setup_id s + 1\<rparr>
                             in case add_playlists strptime (setup_id new_setup) (in_playlists data) s1 of
                                  Inl e \<Rightarrow> (Inl e, s)
                                | Inr s2 \<Rightarrow>
                                    (case link_devices (setup_id new_setup) (in_devices data) None s2 of
                                       Inl e \<Rightarrow> (Inl e, s)
                                     | Inr (device, s3) \<Rightarrow>
                                         (case notify_devices (in_devices data) device s3 of
                                            Inl e \<Rightarrow> (Inl e, s3)
                                          | Inr s4 \<Rightarrow> (Inr (setup_structure new_setup s4), s4)))))))"

subsection \<open>Sequences of requests\<close>

text \<open>
  The steps the server takes, in any order. The code-status stream is three steps, as in
  the source: the handler (\<open>Open_code_stream\<close>), which only reads the subscriber count
  and returns the streaming response; the first step of that response's generator
  (\<open>Start_code_stream\<close>), which subscribes and runs only once the response is streamed;
  and the generator's release (\<open>Close_code_stream\<close>). Steps of other requests can come
  between them. The device and status streams are kept as one opening and one closing
  step each.
\<close>

datatype request =
    Get_code "int \<times> int"
  | Open_code_stream string
  | Start_code_stream string
  | Close_code_stream string
  | Create_device device_input "nat \<Rightarrow> string" int
  | Open_device_stream string int
  | Close_device_stream string int
  | Open_status_stream
  | Close_status_stream
  | Send_snapshot string int
  | Create_setup "string \<Rightarrow> int option" setup_input

fun handle :: "request \<Rightarrow> state \<Rightarrow> state" where
  "handle (Get_code rnd) s = snd (get_unique_activation_code rnd s)"
| "handle (Open_code_stream code) s =
     (case get_device_status_by_code code s of
        Inl e \<Rightarrow> s
      | Inr u \<Rightarrow> s\<lparr>pending_code_streams := code # pending_code_streams s\<rparr>)"
| "handle (Start_code_stream code) s =
     (if code \<in> set (pending_code_streams s)
      then code_event_generator_start code
             (s\<lparr>pending_code_streams := remove1 code (pending_code_streams s)\<rparr>)
      else s)"
| "handle (Close_code_stream code) s =
     (if numsub s code = 0 then s else code_event_generator_finally code s)"
| "handle (Create_device data keys now) s =
     (case create_device data keys now s of None \<Rightarrow> s | Some (r, s') \<Rightarrow> s')"
| "handle (Open_device_stream api_key now) s =
     (case get_device_from_api_key api_key s of
        Inl e \<Rightarrow> s
      | Inr device \<Rightarrow> device_event_generator_start device (get_current_device_instructions device now s))"
| "handle (Close_device_stream api_key now) s =
     (case get_device_from_api_key api_key s of
        Inl e \<Rightarrow> s
      | Inr device \<Rightarrow>
          if numsub s (instruction_channel (device_id device)) = 0 then s
          else device_message_listener_cancelled device (device_event_generator_finally device now s))"
| "handle Open_status_stream s = snd (get_all_devices_status [] s)"
| "handle Close_status_stream s =
     (if numsub s ''devices:status'' = 0 then s else status_event_generator_finally s)"
| "handle (Send_snapshot url dev_id) s = snd (send_snapshot_instruction url dev_id s)"
| "handle (Create_setup strptime data) s = snd (create_setup strptime data s)"

text \<open>A request is well formed when its random draws are in the range of \<^verbatim>\<open>randint\<close>.\<close>

fun well_formed :: "request \<Rightarrow> bool" where
  "well_formed (Get_code rnd) = (randint_seed (fst rnd) \<and> randint_seed (snd rnd))"
| "well_formed r = True"

text \<open>The states the server can be in: those a sequence of steps leads to from the empty one.\<close>

inductive reachable :: "state \<Rightarrow> bool" where
  reachable_initial: "reachable initial_state"
| reachable_handle: "reachable s \<Longrightarrow> well_formed r \<Longrightarrow> reachable (handle r s)"

text \<open>
  A step is serial when it does not check a code while a response accepted for the same
  code has still to subscribe; the serially reachable states are those that serial steps
  lead to.
\<close>

fun serial :: "request \<Rightarrow> state \<Rightarrow> bool" where
  "serial (Open_code_stream code) s = (code \<notin> set (pending_code_streams s))"
| "serial r s = True"

inductive serially_reachable :: "state \<Rightarrow> bool" where
  serially_reachable_initial: "serially_reachable initial_state"
| serially_reachable_handle:
    "serially_reachable s \<Longrightarrow> well_formed r \<Longrightarrow> serial r s \<Longrightarrow> serially_reachable (handle r s)"



subsection \<open>Predicates on states and runs\<close>

text \<open>The values the issuing handler leaves in the counter.\<close>

definition counter_ok :: "state \<Rightarrow> bool" where
  "counter_ok s = (case activation_code_counter s of
                     None \<Rightarrow> True
                   | Some c \<Rightarrow> 100000001 \<le> c \<and> c \<le> 999999998)"



text \<open>
  The issuance as the specification words it, for comparison with the handler: the seed
  lies in the half-open interval from 100_000_000 to 900_000_000, and the counter is
  re-seeded when the incremented value is past 999_999_999.
\<close>

definition claimed_seed :: "int \<Rightarrow> bool" where
  "claimed_seed r = (100000000 \<le> r \<and> r < 900000000)"

definition claimed_get_unique_activation_code :: "int \<times> int \<Rightarrow> state \<Rightarrow> int \<times> state" where
  "claimed_get_unique_activation_code rnd s =
     (let s1 = (if redis_exists_counter s = 0 then redis_set_counter (fst rnd) s else s);
          (unique_code, s2) = redis_incr_counter s1
      in if unique_code > 999999999
         then redis_incr_counter (redis_set_counter (snd rnd) s2)
         else (unique_code, s2))"

text \<open>The payload of line 181, and the messages the log holds for one channel.\<close>

definition update_setup_instruction :: json where
  "update_setup_instruction = JObject [(''instruction'', JString ''update_setup'')]"

definition published_on :: "string \<Rightarrow> state \<Rightarrow> json list" where
  "published_on channel s = map snd (filter (\<lambda>m. fst m = channel) (published s))"

subsection \<open>Example inputs\<close>

text \<open>
  A store with one registered device, a subscriber waiting on the code 123456789 and the
  device's own session attached; a registration request for that code; a key generator
  whose first key is taken.
\<close>

definition example_device :: device where
  "example_device = \<lparr>device_id = 1, device_name = ''Hall'', device_location = ''North wing'',
     device_last_seen = 0, device_api_key = ''k0'', device_setup_id = None\<rparr>"

definition example_state :: state where
  "example_state = initial_state\<lparr>devices := [example_device], next_device_id := 2,
     numsub := (\<lambda>c. if c = ''123456789'' \<or> c = ''device:1:instructions'' then 1 else 0)\<rparr>"

definition example_input :: device_input where
  "example_input = \<lparr>input_name = ''Lobby-1'', input_location = ''Lobby'', input_setup_id = None,
     input_code = 123456789\<rparr>"

definition example_keys :: "nat \<Rightarrow> string" where
  "example_keys k = (if k = 0 then ''k0'' else ''k1'')"

text \<open>What reaches the queue of a status stream: a tick, the subscription notice, a message.\<close>

definition example_arrivals :: "arrival list" where
  "example_arrivals = [Heartbeat_tick, Pubsub ''subscribe'' (JInt 1),
     Pubsub ''message'' (status_message 1 ''online'')]"

text \<open>A setup request for two devices, with a parser that knows the two times it uses.\<close>

definition example_strptime :: "string \<Rightarrow> int option" where
  "example_strptime t = (if t = ''08:00'' then Some 480 else if t = ''12:00'' then Some 720 else None)"

definition example_setup_input :: setup_input where
  "example_setup_input =
     \<lparr>in_name = ''Lobby loop'',
      in_playlists = [\<lparr>pl_name = ''Morning'', pl_start_time = ''08:00'', pl_end_time = ''12:00'',
         pl_monday = True, pl_tuesday = True, pl_wednesday = False, pl_thursday = False,
         pl_friday = False, pl_saturday = False, pl_sunday = False,
         pl_images = [\<lparr>base_url = ''https://bucket/a.png'', base_duration = 10\<rparr>],
         pl_videos = []\<rparr>],
      in_devices = [1, 2]\<rparr>"

definition example_fleet :: state where
  "example_fleet = initial_state\<lparr>devices := [example_device,
       example_device\<lparr>device_id := 2, device_name := ''Lobby-1'', device_api_key := ''k1''\<rparr>],
     next_device_id := 3\<rparr>"

section \<open>Properties\<close>

subsection \<open>Decimal rendering\<close>

lemma str_int_123456789: "str_int 123456789 = ''123456789''"
  by (simp add: str_int_def str_nat.simps digit_char_def)

subsection \<open>Registration\<close>

lemma unique_api_key_offset:
  "first_device_by_api_key (keys (k + n)) s = None \<Longrightarrow>
   (\<forall>j<n. first_device_by_api_key (keys (k + j)) s \<noteq> None) \<Longrightarrow>
   unique_api_key keys s k = Some (keys (k + n))"
proof (induction n arbitrary: k)
  case 0
  then show ?case by (simp add: unique_api_key.simps)
next
  case (Suc n)
  have here: "first_device_by_api_key (keys k) s \<noteq> None"
    using Suc.prems(2) [rule_format, of 0] by simp
  have "unique_api_key keys s (Suc k) = Some (keys (Suc k + n))"
  proof (rule Suc.IH)
    show "first_device_by_api_key (keys (Suc k + n)) s = None"
      using Suc.prems(1) by simp
    show "\<forall>j<n. first_device_by_api_key (keys (Suc k + j)) s \<noteq> None"
      using Suc.prems(2) [rule_format, of "Suc j" for j] by simp
  qed
  then have next_call: "unique_api_key keys s (Suc k) = Some (keys (k + Suc n))" by simp
  show ?case
    by (subst unique_api_key.simps) (simp only: Let_def here if_False next_call)
qed

lemma first_device_by_api_key_None:
  "(first_device_by_api_key k s = None) = (k \<notin> device_api_key ` set (devices s))"
  unfolding first_device_by_api_key_def find_None_iff by blast

lemma unique_api_key_first_fresh:
  assumes fresh: "keys n \<notin> device_api_key ` set (devices s)"
  shows "\<exists>k\<le>n. unique_api_key keys s 0 = Some (keys k)
           \<and> keys k \<notin> device_api_key ` set (devices s)
           \<and> (\<forall>j<k. keys j \<in> device_api_key ` set (devices s))"
proof -
  let ?P = "\<lambda>k. keys k \<notin> device_api_key ` set (devices s)"
  define k where "k = (LEAST k. ?P k)"
  have pk: "?P k" unfolding k_def using fresh by (rule LeastI)
  have le: "k \<le> n" unfolding k_def using fresh by (rule Least_le)
  have before: "\<forall>j<k. \<not> ?P j" unfolding k_def using not_less_Least by blast
  have "unique_api_key keys s 0 = Some (keys (0 + k))"
  proof (rule unique_api_key_offset)
    show "first_device_by_api_key (keys (0 + k)) s = None"
      using pk by (simp add: first_device_by_api_key_None)
    show "\<forall>j<k. first_device_by_api_key (keys (0 + j)) s \<noteq> None"
      using before by (simp add: first_device_by_api_key_None)
  qed
  then have "unique_api_key keys s 0 = Some (keys k)" by simp
  with pk le before show ?thesis by blast
qed

text \<open>
  Claim C1. A registration request against a code whose channel has no subscriber when
  the request is processed fails with 404 (the detail names the pin), and the state it
  returns is the state it found: no device row is added and nothing is published.
\<close>

theorem create_device_no_subscriber:
  assumes "pubsub_numsub (str_int (input_code data)) s = 0"
  shows "create_device data keys now s =
           Some (Inl (HTTPException HTTP_404_NOT_FOUND
                   (''No Client awaiting with the following pin: '' @ str_int (input_code data))), s)"
  using assms by (simp add: create_device_def)

lemma create_device_conflict:
  assumes "pubsub_numsub (str_int (input_code data)) s \<noteq> 0"
    and "first_device_by_name (input_name data) s \<noteq> None"
  shows "create_device data keys now s =
           Some (Inl (HTTPException HTTP_409_CONFLICT
                   (''Device name '' @ input_name data @ '' already exsist.'')), s)"
  using assms by (simp add: create_device_def)

lemma create_device_success:
  assumes sub: "pubsub_numsub (str_int (input_code data)) s \<noteq> 0"
    and name: "first_device_by_name (input_name data) s = None"
    and key: "unique_api_key keys s 0 = Some api_key"
  shows "create_device data keys now s =
           Some (Inr \<lparr>device_id = next_device_id s, device_name = input_name data,
                      device_location = input_location data, device_last_seen = now,
                      device_api_key = api_key, device_setup_id = None\<rparr>,
                 s\<lparr>devices := devices s @ [\<lparr>device_id = next_device_id s, device_name = input_name data,
                      device_location = input_location data, device_last_seen = now,
                      device_api_key = api_key, device_setup_id = None\<rparr>],
                   next_device_id := next_device_id s + 1,
                   published := published s @ [(str_int (input_code data),
                      JObject [(''name'', JString (input_name data)), (''api_key'', JString api_key)])]\<rparr>)"
  using assms by (simp add: create_device_def add_device_def publish_def Let_def)

lemma first_device_by_name_None:
  "(first_device_by_name n s = None) = (n \<notin> device_name ` set (devices s))"
  unfolding first_device_by_name_def find_None_iff by blast

text \<open>
  Claim C2. A registration request against a code with at least one subscriber: when a
  device of that name exists it fails with 409 and the state is unchanged; otherwise,
  when the key generator eventually returns a key no device has, the key taken is the first
  such key (every earlier draw collided), exactly one row with the requested name and that
  key is appended to the device table, and exactly one message, the object with the
  members \<open>name\<close> and \<open>api_key\<close>, is published on the channel named by the code.
\<close>

theorem create_device_registers:
  assumes sub: "pubsub_numsub (str_int (input_code data)) s \<noteq> 0"
  shows "(input_name data \<in> device_name ` set (devices s) \<longrightarrow>
            create_device data keys now s =
              Some (Inl (HTTPException HTTP_409_CONFLICT
                      (''Device name '' @ input_name data @ '' already exsist.'')), s))
       \<and> (input_name data \<notin> device_name ` set (devices s)
            \<and> keys n \<notin> device_api_key ` set (devices s) \<longrightarrow>
            (\<exists>k new_device s'.
               create_device data keys now s = Some (Inr new_device, s')
               \<and> (\<forall>j<k. keys j \<in> device_api_key ` set (devices s))
               \<and> keys k \<notin> device_api_key ` set (devices s)
               \<and> device_name new_device = input_name data
               \<and> device_api_key new_device = keys k
               \<and> devices s' = devices s @ [new_device]
               \<and> published s' = published s @
                     [(str_int (input_code data),
                       JObject [(''name'', JString (input_name data)),
                                (''api_key'', JString (keys k))])]))"
proof (intro conjI impI)
  assume "input_name data \<in> device_name ` set (devices s)"
  then have "first_device_by_name (input_name data) s \<noteq> None"
    by (simp add: first_device_by_name_None)
  with sub show "create_device data keys now s =
      Some (Inl (HTTPException HTTP_409_CONFLICT
              (''Device name '' @ input_name data @ '' already exsist.'')), s)"
    by (rule create_device_conflict)
next
  assume h: "input_name data \<notin> device_name ` set (devices s)
       \<and> keys n \<notin> device_api_key ` set (devices s)"
  then have name: "first_device_by_name (input_name data) s = None"
    by (simp add: first_device_by_name_None)
  from h obtain k where key: "unique_api_key keys s 0 = Some (keys k)"
      and fresh: "keys k \<notin> device_api_key ` set (devices s)"
      and before: "\<forall>j<k. keys j \<in> device_api_key ` set (devices s)"
    using unique_api_key_first_fresh [of keys n s] by blast
  note res = create_device_success [OF sub name key, of now]
  show "\<exists>k new_device s'.
       create_device data keys now s = Some (Inr new_device, s')
       \<and> (\<forall>j<k. keys j \<in> device_api_key ` set (devices s))
       \<and> keys k \<notin> device_api_key ` set (devices s)
       \<and> device_name new_device = input_name data
       \<and> device_api_key new_device = keys k
       \<and> devices s' = devices s @ [new_device]
       \<and> published s' = published s @
             [(str_int (input_code data),
               JObject [(''name'', JString (input_name data)),
                        (''api_key'', JString (keys k))])]"
    apply (rule exI [of _ k])
    apply (intro exI conjI)
          apply (rule res)
         apply (rule before)
        apply (rule fresh)
       apply simp_all
    done
qed

theorem create_device_no_subscriber_witness:
  "create_device example_input example_keys 7 initial_state =
     Some (Inl (HTTPException 404 ''No Client awaiting with the following pin: 123456789''), initial_state)"
  using create_device_no_subscriber [of example_input initial_state example_keys 7]
  by (simp add: example_input_def initial_state_def pubsub_numsub_def HTTP_404_NOT_FOUND_def
      str_int_123456789)

theorem create_device_registers_witness:
  "create_device (example_input\<lparr>input_name := ''Hall''\<rparr>) example_keys 7 example_state =
     Some (Inl (HTTPException 409 ''Device name Hall already exsist.''), example_state)
   \<and> (\<exists>new_device s'.
         create_device example_input example_keys 7 example_state = Some (Inr new_device, s')
         \<and> device_name new_device = ''Lobby-1''
         \<and> device_api_key new_device = ''k1''
         \<and> devices s' = [example_device, new_device]
         \<and> published s' = [(''123456789'',
               JObject [(''name'', JString ''Lobby-1''), (''api_key'', JString ''k1'')])])"
proof
  have sub: "pubsub_numsub (str_int (input_code (example_input\<lparr>input_name := ''Hall''\<rparr>))) example_state \<noteq> 0"
    by (simp add: example_input_def example_state_def pubsub_numsub_def str_int_123456789)
  show "create_device (example_input\<lparr>input_name := ''Hall''\<rparr>) example_keys 7 example_state =
     Some (Inl (HTTPException 409 ''Device name Hall already exsist.''), example_state)"
    using create_device_registers [OF sub, of example_keys 7 0]
    by (simp add: example_input_def example_state_def example_device_def HTTP_409_CONFLICT_def)
next
  have sub: "pubsub_numsub (str_int (input_code example_input)) example_state \<noteq> 0"
    by (simp add: example_input_def example_state_def pubsub_numsub_def str_int_123456789)
  have "\<exists>k new_device s'.
               create_device example_input example_keys 7 example_state = Some (Inr new_device, s')
               \<and> (\<forall>j<k. example_keys j \<in> device_api_key ` set (devices example_state))
               \<and> example_keys k \<notin> device_api_key ` set (devices example_state)
               \<and> device_name new_device = input_name example_input
               \<and> device_api_key new_device = example_keys k
               \<and> devices s' = devices example_state @ [new_device]
               \<and> published s' = published example_state @
                     [(str_int (input_code example_input),
                       JObject [(''name'', JString (input_name example_input)),
                                (''api_key'', JString (example_keys k))])]"
    using create_device_registers [OF sub, of example_keys 7 1]
    by (simp add: example_input_def example_state_def example_device_def example_keys_def)
  then obtain k new_device s' where
      r: "create_device example_input example_keys 7 example_state = Some (Inr new_device, s')"
      and fresh: "example_keys k \<notin> device_api_key ` set (devices example_state)"
      and n: "device_name new_device = input_name example_input"
      and a: "device_api_key new_device = example_keys k"
      and d: "devices s' = devices example_state @ [new_device]"
      and p: "published s' = published example_state @
                     [(str_int (input_code example_input),
                       JObject [(''name'', JString (input_name example_input)),
                                (''api_key'', JString (example_keys k))])]"
    by blast
  from fresh have k1: "example_keys k = ''k1''"
    by (simp add: example_keys_def example_state_def example_device_def split: if_splits)
  show "\<exists>new_device s'.
         create_device example_input example_keys 7 example_state = Some (Inr new_device, s')
         \<and> device_name new_device = ''Lobby-1''
         \<and> device_api_key new_device = ''k1''
         \<and> devices s' = [example_device, new_device]
         \<and> published s' = [(''123456789'',
               JObject [(''name'', JString ''Lobby-1''), (''api_key'', JString ''k1'')])]"
    apply (intro exI conjI)
        apply (rule r)
    using n a d p k1
       apply (simp_all add: example_input_def example_state_def initial_state_def str_int_123456789)
    done
qed

subsection \<open>Snapshot instruction, status stream, presence\<close>

lemma str_int_1: "str_int 1 = ''1''"
  by (simp add: str_int_def str_nat.simps digit_char_def)

lemma instruction_channel_1: "instruction_channel 1 = ''device:1:instructions''"
  by (simp add: instruction_channel_def str_int_1)

lemma first_device_by_id_None:
  "(first_device_by_id i s = None) = (i \<notin> device_id ` set (devices s))"
  unfolding first_device_by_id_def find_None_iff by blast

lemma first_device_by_id_Some: "first_device_by_id i s = Some d \<Longrightarrow> device_id d = i \<and> d \<in> set (devices s)"
  unfolding first_device_by_id_def find_Some_iff by auto

text \<open>
  Claim C8. A snapshot request for an id no device has fails with 404; for a device whose
  instruction channel has no subscriber it fails with 409 and the state (so the log of
  published messages) is unchanged; otherwise the success detail is returned and the state
  changes by exactly one published message, the object with the members
  \<open>instruction = snapshot\<close> and \<open>url\<close>, on \<^verbatim>\<open>device:{id}:instructions\<close>.
\<close>

theorem send_snapshot_instruction_cases:
  "(dev_id \<notin> device_id ` set (devices s) \<longrightarrow>
      send_snapshot_instruction url dev_id s =
        (Inl (HTTPException HTTP_404_NOT_FOUND (''Device '' @ str_int dev_id @ '' not found'')), s))
   \<and> (dev_id \<in> device_id ` set (devices s) \<and> pubsub_numsub (instruction_channel dev_id) s = 0 \<longrightarrow>
      send_snapshot_instruction url dev_id s =
        (Inl (HTTPException HTTP_409_CONFLICT (''Device '' @ str_int dev_id @ '' is offline'')), s))
   \<and> (dev_id \<in> device_id ` set (devices s) \<and> pubsub_numsub (instruction_channel dev_id) s \<noteq> 0 \<longrightarrow>
      send_snapshot_instruction url dev_id s =
        (Inr (JObject [(''detail'', JString ''Instruction sent successfully'')]),
         s\<lparr>published := published s @
            [(instruction_channel dev_id,
              JObject [(''instruction'', JString ''snapshot''), (''url'', JString url)])]\<rparr>))"
proof (intro conjI impI)
  assume "dev_id \<notin> device_id ` set (devices s)"
  then have "first_device_by_id dev_id s = None" by (simp add: first_device_by_id_None)
  then show "send_snapshot_instruction url dev_id s =
        (Inl (HTTPException HTTP_404_NOT_FOUND (''Device '' @ str_int dev_id @ '' not found'')), s)"
    by (simp add: send_snapshot_instruction_def)
next
  assume h: "dev_id \<in> device_id ` set (devices s) \<and> pubsub_numsub (instruction_channel dev_id) s = 0"
  then obtain d where d: "first_device_by_id dev_id s = Some d"
    using first_device_by_id_None [of dev_id s] by auto
  then have "device_id d = dev_id" by (simp add: first_device_by_id_Some)
  with d h show "send_snapshot_instruction url dev_id s =
        (Inl (HTTPException HTTP_409_CONFLICT (''Device '' @ str_int dev_id @ '' is offline'')), s)"
    by (simp add: send_snapshot_instruction_def)
next
  assume h: "dev_id \<in> device_id ` set (devices s) \<and> pubsub_numsub (instruction_channel dev_id) s \<noteq> 0"
  then obtain d where d: "first_device_by_id dev_id s = Some d"
    using first_device_by_id_None [of dev_id s] by auto
  then have "device_id d = dev_id" by (simp add: first_device_by_id_Some)
  with d h show "send_snapshot_instruction url dev_id s =
        (Inr (JObject [(''detail'', JString ''Instruction sent successfully'')]),
         s\<lparr>published := published s @
            [(instruction_channel dev_id,
              JObject [(''instruction'', JString ''snapshot''), (''url'', JString url)])]\<rparr>)"
    by (simp add: send_snapshot_instruction_def publish_def)
qed

theorem send_snapshot_instruction_cases_witness:
  "send_snapshot_instruction ''https://bucket/shot.png'' 1 initial_state =
     (Inl (HTTPException 404 ''Device 1 not found''), initial_state)
   \<and> send_snapshot_instruction ''https://bucket/shot.png'' 1 (example_state\<lparr>numsub := (\<lambda>c. 0)\<rparr>) =
     (Inl (HTTPException 409 ''Device 1 is offline''), example_state\<lparr>numsub := (\<lambda>c. 0)\<rparr>)
   \<and> send_snapshot_instruction ''https://bucket/shot.png'' 1 example_state =
     (Inr (JObject [(''detail'', JString ''Instruction sent successfully'')]),
      example_state\<lparr>published :=
         [(''device:1:instructions'',
           JObject [(''instruction'', JString ''snapshot''), (''url'', JString ''https://bucket/shot.png'')])]\<rparr>)"
proof (intro conjI)
  show "send_snapshot_instruction ''https://bucket/shot.png'' 1 initial_state =
     (Inl (HTTPException 404 ''Device 1 not found''), initial_state)"
    using send_snapshot_instruction_cases [of 1 initial_state "''https://bucket/shot.png''"]
    by (simp add: initial_state_def HTTP_404_NOT_FOUND_def str_int_1)
  show "send_snapshot_instruction ''https://bucket/shot.png'' 1 (example_state\<lparr>numsub := (\<lambda>c. 0)\<rparr>) =
     (Inl (HTTPException 409 ''Device 1 is offline''), example_state\<lparr>numsub := (\<lambda>c. 0)\<rparr>)"
    using send_snapshot_instruction_cases [of 1 "example_state\<lparr>numsub := (\<lambda>c. 0)\<rparr>" "''https://bucket/shot.png''"]
    by (simp add: example_state_def example_device_def pubsub_numsub_def HTTP_409_CONFLICT_def str_int_1)
  show "send_snapshot_instruction ''https://bucket/shot.png'' 1 example_state =
     (Inr (JObject [(''detail'', JString ''Instruction sent successfully'')]),
      example_state\<lparr>published :=
         [(''device:1:instructions'',
           JObject [(''instruction'', JString ''snapshot''), (''url'', JString ''https://bucket/shot.png'')])]\<rparr>)"
    using send_snapshot_instruction_cases [of 1 example_state "''https://bucket/shot.png''"]
    by (simp add: example_state_def example_device_def initial_state_def pubsub_numsub_def
        instruction_channel_1)
qed

lemma status_queue_put_not_snapshot: "f \<in> set (status_queue_put a) \<Longrightarrow> \<not> is_snapshot f"
  by (cases a) (auto split: if_splits)

lemma status_queue_not_snapshot:
  "f \<in> set (concat (map status_queue_put arrivals)) \<Longrightarrow> \<not> is_snapshot f"
  by (auto dest: status_queue_put_not_snapshot)

text \<open>
  Claim C9. The first frame the status stream emits is the snapshot of the set of online
  device ids; every frame of a presence transition (event \<open>update\<close>) comes at a later
  position, and no later frame is a snapshot.
\<close>

theorem status_stream_snapshot_first:
  "fst (get_all_devices_status arrivals s) ! 0 = Frame ''message'' (Data_members (online_devices s))
   \<and> (\<forall>i<length (fst (get_all_devices_status arrivals s)).
         is_update (fst (get_all_devices_status arrivals s) ! i) \<longrightarrow> 0 < i)
   \<and> (\<forall>i<length (fst (get_all_devices_status arrivals s)).
         is_snapshot (fst (get_all_devices_status arrivals s) ! i) \<longrightarrow> i = 0)"
proof (intro conjI allI impI)
  show "fst (get_all_devices_status arrivals s) ! 0 = Frame ''message'' (Data_members (online_devices s))"
    by (simp add: get_all_devices_status_def subscribe_def Let_def)
next
  fix i
  assume "i < length (fst (get_all_devices_status arrivals s))"
    and "is_update (fst (get_all_devices_status arrivals s) ! i)"
  then show "0 < i"
    by (cases i) (simp_all add: get_all_devices_status_def Let_def)
next
  fix i
  assume len: "i < length (fst (get_all_devices_status arrivals s))"
    and snap: "is_snapshot (fst (get_all_devices_status arrivals s) ! i)"
  show "i = 0"
  proof (cases i)
    case 0
    then show ?thesis .
  next
    case (Suc j)
    with len have "j < length (concat (map status_queue_put arrivals))"
      by (simp add: get_all_devices_status_def Let_def)
    then have "concat (map status_queue_put arrivals) ! j \<in> set (concat (map status_queue_put arrivals))"
      by (rule nth_mem)
    then have "\<not> is_snapshot (concat (map status_queue_put arrivals) ! j)"
      by (rule status_queue_not_snapshot)
    with snap Suc show ?thesis
      by (simp add: get_all_devices_status_def Let_def)
  qed
qed

theorem status_stream_snapshot_first_witness:
  "fst (get_all_devices_status example_arrivals (example_state\<lparr>online_devices := {1}\<rparr>)) =
     [Frame ''message'' (Data_members {1}), Frame ''heartbeat'' (Data_text ''heartbeat''),
      Frame ''update'' (Data_json (status_message 1 ''online''))]
   \<and> is_update (fst (get_all_devices_status example_arrivals (example_state\<lparr>online_devices := {1}\<rparr>)) ! 2)
   \<and> is_snapshot (fst (get_all_devices_status example_arrivals (example_state\<lparr>online_devices := {1}\<rparr>)) ! 0)
   \<and> (0::nat) < 2"
  using status_stream_snapshot_first [of example_arrivals "example_state\<lparr>online_devices := {1}\<rparr>"]
  by (simp add: get_all_devices_status_def example_arrivals_def subscribe_def Let_def)

text \<open>
  Claim C6. Marking online a device that is in the online set, and marking offline a
  device that is not in it, leave the online set as it was; the set holds at most one
  entry for a device id.
\<close>

theorem presence_marking_idempotent:
  "(device_id device \<in> online_devices s \<longrightarrow>
      online_devices (get_current_device_instructions device now s) = online_devices s)
   \<and> (device_id device \<notin> online_devices s \<longrightarrow>
      online_devices (device_message_listener_cancelled device s) = online_devices s)
   \<and> card {e \<in> online_devices (get_current_device_instructions device now s). e = d} \<le> 1
   \<and> card {e \<in> online_devices (device_message_listener_cancelled device s). e = d} \<le> 1"
proof (intro conjI impI)
  assume "device_id device \<in> online_devices s"
  then show "online_devices (get_current_device_instructions device now s) = online_devices s"
    by (auto simp: get_current_device_instructions_def sadd_online_def publish_def set_last_seen_def Let_def)
next
  assume "device_id device \<notin> online_devices s"
  then show "online_devices (device_message_listener_cancelled device s) = online_devices s"
    by (auto simp: device_message_listener_cancelled_def srem_online_def publish_def unsubscribe_def Let_def)
next
  have "{e \<in> online_devices (get_current_device_instructions device now s). e = d} \<subseteq> {d}" by blast
  then show "card {e \<in> online_devices (get_current_device_instructions device now s). e = d} \<le> 1"
    using card_mono [of "{d}"] by fastforce
next
  have "{e \<in> online_devices (device_message_listener_cancelled device s). e = d} \<subseteq> {d}" by blast
  then show "card {e \<in> online_devices (device_message_listener_cancelled device s). e = d} \<le> 1"
    using card_mono [of "{d}"] by fastforce
qed


theorem presence_marking_idempotent_witness:
  "online_devices (get_current_device_instructions example_device 7
      (example_state\<lparr>online_devices := {1}\<rparr>)) = {1}
   \<and> online_devices (device_message_listener_cancelled example_device example_state) = {}"
  using presence_marking_idempotent [of example_device "example_state\<lparr>online_devices := {1}\<rparr>" 7 1]
    presence_marking_idempotent [of example_device example_state 7 1]
  by (simp add: example_state_def example_device_def initial_state_def)

subsection \<open>Channel names\<close>

lemma digit_cases: "d < 10 \<Longrightarrow> d \<in> {0, 1, 2, 3, 4, 5, 6, 7, 8, 9::nat}"
  by auto

lemma digit_value_digit_char: "d < 10 \<Longrightarrow> digit_value (digit_char d) = d"
  using digit_cases [of d] by (auto simp: digit_value_def digit_char_def)

lemma digit_char_not_letter: "d < 10 \<Longrightarrow> digit_char d \<noteq> CHR ''d'' \<and> digit_char d \<noteq> CHR ''-''"
  using digit_cases [of d] by (auto simp: digit_char_def)

lemma parse_nat_str_nat: "parse_nat (str_nat n) = n"
proof (induction n rule: str_nat.induct)
  case (1 n)
  show ?case
  proof (cases "n < 10")
    case True
    then show ?thesis
      by (subst str_nat.simps) (simp add: parse_nat_def digit_value_digit_char)
  next
    case False
    with "1" have ih: "parse_nat (str_nat (n div 10)) = n div 10" by simp
    have "parse_nat (str_nat n) = 10 * parse_nat (str_nat (n div 10)) + digit_value (digit_char (n mod 10))"
      using False by (subst str_nat.simps) (simp add: parse_nat_def)
    also have "\<dots> = 10 * (n div 10) + n mod 10"
      by (simp add: ih digit_value_digit_char)
    finally show ?thesis by simp
  qed
qed

lemma str_nat_hd: "str_nat n \<noteq> [] \<and> hd (str_nat n) \<noteq> CHR ''d'' \<and> hd (str_nat n) \<noteq> CHR ''-''"
proof (induction n rule: str_nat.induct)
  case (1 n)
  show ?case
  proof (cases "n < 10")
    case True
    then have "str_nat n = [digit_char n]"
      by (subst str_nat.simps) simp
    with digit_char_not_letter [OF True] show ?thesis by (simp only: list.sel not_Cons_self2 simp_thms)
  next
    case False
    with "1" have ih: "str_nat (n div 10) \<noteq> [] \<and> hd (str_nat (n div 10)) \<noteq> CHR ''d''
        \<and> hd (str_nat (n div 10)) \<noteq> CHR ''-''" by simp
    have "str_nat n = str_nat (n div 10) @ [digit_char (n mod 10)]"
      using False by (subst str_nat.simps) simp
    with ih show ?thesis by simp
  qed
qed

lemma str_nat_inj: "str_nat a = str_nat b \<Longrightarrow> a = b"
  by (metis parse_nat_str_nat)

lemma str_int_hd: "str_int i \<noteq> [] \<and> hd (str_int i) \<noteq> CHR ''d''"
  using str_nat_hd [of "nat i"] by (simp add: str_int_def)

lemma str_int_inj: "str_int a = str_int b \<Longrightarrow> a = b"
proof -
  assume eq: "str_int a = str_int b"
  consider "a < 0" "b < 0" | "a < 0" "\<not> b < 0" | "\<not> a < 0" "b < 0" | "\<not> a < 0" "\<not> b < 0"
    by blast
  then show ?thesis
  proof cases
    case 1
    with eq have "nat (- a) = nat (- b)" by (simp add: str_int_def str_nat_inj)
    with 1 show ?thesis by simp
  next
    case 2
    with eq have "hd (str_nat (nat b)) = CHR ''-''" by (simp add: str_int_def) (metis list.sel(1))
    with str_nat_hd [of "nat b"] show ?thesis by simp
  next
    case 3
    with eq have "hd (str_nat (nat a)) = CHR ''-''" by (simp add: str_int_def)
    with str_nat_hd [of "nat a"] show ?thesis by simp
  next
    case 4
    with eq have "nat a = nat b" by (simp add: str_int_def str_nat_inj)
    with 4 show ?thesis by simp
  qed
qed

lemma instruction_channel_inj: "instruction_channel a = instruction_channel b \<Longrightarrow> a = b"
  by (simp add: instruction_channel_def str_int_inj)

lemma str_int_not_status: "str_int c \<noteq> ''devices:status''"
  using str_int_hd [of c] by (cases "str_int c") auto

lemma str_int_not_instruction: "str_int c \<noteq> instruction_channel i"
  using str_int_hd [of c] by (cases "str_int c") (auto simp: instruction_channel_def)

subsection \<open>Issuing codes: the counter\<close>

lemma get_unique_activation_code_code:
  "fst (get_unique_activation_code rnd s) =
     (case activation_code_counter s of
        None \<Rightarrow> if fst rnd + 1 \<ge> 999999999 then snd rnd + 1 else fst rnd + 1
      | Some c \<Rightarrow> if c + 1 \<ge> 999999999 then snd rnd + 1 else c + 1)"
  by (simp add: get_unique_activation_code_def redis_exists_counter_def redis_set_counter_def
      redis_incr_counter_def Let_def split: option.split)

lemma get_unique_activation_code_counter:
  "activation_code_counter (snd (get_unique_activation_code rnd s)) =
     Some (fst (get_unique_activation_code rnd s))"
  by (simp add: get_unique_activation_code_def redis_exists_counter_def redis_set_counter_def
      redis_incr_counter_def Let_def split: option.split)

lemma get_unique_activation_code_numsub:
  "numsub (snd (get_unique_activation_code rnd s)) = numsub s"
  by (simp add: get_unique_activation_code_def redis_exists_counter_def redis_set_counter_def
      redis_incr_counter_def Let_def split: option.split)

lemma get_unique_activation_code_in_range:
  assumes "counter_ok s" "randint_seed (fst rnd)" "randint_seed (snd rnd)"
  shows "100000001 \<le> fst (get_unique_activation_code rnd s)
       \<and> fst (get_unique_activation_code rnd s) \<le> 999999998"
  using assms
  by (auto simp: get_unique_activation_code_code counter_ok_def randint_seed_def split: option.splits)

lemma get_unique_activation_code_counter_ok:
  assumes "counter_ok s" "randint_seed (fst rnd)" "randint_seed (snd rnd)"
  shows "counter_ok (snd (get_unique_activation_code rnd s))"
  using get_unique_activation_code_in_range [OF assms]
  by (simp add: counter_ok_def get_unique_activation_code_counter)

lemma create_device_frame:
  "create_device data keys now s = Some (r, s') \<Longrightarrow>
     numsub s' = numsub s \<and> activation_code_counter s' = activation_code_counter s"
  by (auto simp: create_device_def add_device_def publish_def Let_def
      split: if_splits option.splits)

lemma send_snapshot_instruction_frame:
  "numsub (snd (send_snapshot_instruction url dev_id s)) = numsub s
   \<and> activation_code_counter (snd (send_snapshot_instruction url dev_id s)) = activation_code_counter s"
  by (simp add: send_snapshot_instruction_def publish_def Let_def split: option.split)

lemma add_images_frame:
  "numsub (add_images pid xs s) = numsub s
   \<and> activation_code_counter (add_images pid xs s) = activation_code_counter s
   \<and> published (add_images pid xs s) = published s
   \<and> devices (add_images pid xs s) = devices s"
  by (induction xs arbitrary: s) simp_all

lemma add_videos_frame:
  "numsub (add_videos pid xs s) = numsub s
   \<and> activation_code_counter (add_videos pid xs s) = activation_code_counter s
   \<and> published (add_videos pid xs s) = published s
   \<and> devices (add_videos pid xs s) = devices s"
  by (induction xs arbitrary: s) simp_all

lemma add_playlists_frame:
  "add_playlists strptime sid pls s = Inr s' \<Longrightarrow>
     numsub s' = numsub s \<and> activation_code_counter s' = activation_code_counter s
     \<and> published s' = published s \<and> devices s' = devices s"
proof (induction pls arbitrary: s)
  case Nil
  then show ?case by simp
next
  case (Cons p pls)
  from Cons.prems obtain s3 where
      rec: "add_playlists strptime sid pls s3 = Inr s'"
      and s3: "numsub s3 = numsub s \<and> activation_code_counter s3 = activation_code_counter s
         \<and> published s3 = published s \<and> devices s3 = devices s"
    by (auto simp: Let_def add_images_frame add_videos_frame split: if_splits option.splits)
  from Cons.IH [OF rec] s3 show ?case by simp
qed

lemma link_devices_frame:
  "link_devices sid ids dev s = Inr (dev', s') \<Longrightarrow>
     numsub s' = numsub s \<and> activation_code_counter s' = activation_code_counter s
     \<and> published s' = published s"
proof (induction ids arbitrary: dev s)
  case Nil
  then show ?case by simp
next
  case (Cons i ids)
  from Cons.prems obtain d s1 where
      rec: "link_devices sid ids (Some d) s1 = Inr (dev', s')"
      and s1: "numsub s1 = numsub s \<and> activation_code_counter s1 = activation_code_counter s
         \<and> published s1 = published s"
    by (auto simp: Let_def split: option.splits)
  from Cons.IH [OF rec] s1 show ?case by simp
qed

lemma notify_devices_frame:
  "notify_devices ids dev s = Inr s' \<Longrightarrow>
     numsub s' = numsub s \<and> activation_code_counter s' = activation_code_counter s"
proof (induction ids arbitrary: s)
  case Nil
  then show ?case by simp
next
  case (Cons i ids)
  from Cons.prems obtain d where d: "dev = Some d"
      and rec: "notify_devices ids dev
         (publish (instruction_channel (device_id d)) (JObject [(''instruction'', JString ''update_setup'')]) s) = Inr s'"
    by (auto simp: Let_def split: option.splits)
  from Cons.IH [OF rec] show ?case by (simp add: publish_def)
qed

lemma create_setup_frame:
  "numsub (snd (create_setup strptime data s)) = numsub s
   \<and> activation_code_counter (snd (create_setup strptime data s)) = activation_code_counter s"
proof -
  let ?s1 = "s\<lparr>setups := setups s @ [\<lparr>setup_id = next_setup_id s, setup_name = in_name data\<rparr>],
                next_setup_id := next_setup_id s + 1\<rparr>"
  have s1: "numsub ?s1 = numsub s \<and> activation_code_counter ?s1 = activation_code_counter s" by simp
  show ?thesis
    unfolding create_setup_def Let_def
    using s1
    by (auto split: option.split sum.split prod.split
        dest!: add_playlists_frame link_devices_frame notify_devices_frame)
qed

subsection \<open>Invariants of the reachable states\<close>

lemma handle_counter_ok:
  assumes "counter_ok s" "well_formed r"
  shows "counter_ok (handle r s)"
proof (cases r)
  case (Get_code rnd)
  with assms show ?thesis by (simp add: get_unique_activation_code_counter_ok)
next
  case (Open_code_stream code)
  with assms show ?thesis
    by (auto simp: counter_ok_def split: sum.split)
next
  case (Start_code_stream code)
  with assms show ?thesis
    by (auto simp: counter_ok_def code_event_generator_start_def subscribe_def)
next
  case (Close_code_stream code)
  with assms show ?thesis
    by (auto simp: counter_ok_def code_event_generator_finally_def unsubscribe_def)
next
  case (Create_device data keys now)
  with assms show ?thesis
    by (auto simp: counter_ok_def split: option.split dest: create_device_frame)
next
  case (Open_device_stream api_key now)
  with assms show ?thesis
    by (auto simp: counter_ok_def get_device_from_api_key_def device_event_generator_start_def
        get_current_device_instructions_def subscribe_def sadd_online_def publish_def
        set_last_seen_def Let_def split: option.split)
next
  case (Close_device_stream api_key now)
  with assms show ?thesis
    by (auto simp: counter_ok_def get_device_from_api_key_def device_message_listener_cancelled_def
        device_event_generator_finally_def unsubscribe_def srem_online_def publish_def
        set_last_seen_def Let_def split: option.split)
next
  case Open_status_stream
  with assms show ?thesis
    by (simp add: counter_ok_def get_all_devices_status_def subscribe_def Let_def)
next
  case Close_status_stream
  with assms show ?thesis
    by (simp add: counter_ok_def status_event_generator_finally_def unsubscribe_def)
next
  case (Send_snapshot url dev_id)
  with assms show ?thesis by (simp add: counter_ok_def send_snapshot_instruction_frame)
next
  case (Create_setup strptime data)
  with assms show ?thesis by (simp add: counter_ok_def create_setup_frame)
qed

lemma reachable_counter_ok: "reachable s \<Longrightarrow> counter_ok s"
proof (induction rule: reachable.induct)
  case reachable_initial
  show ?case by (simp add: initial_state_def counter_ok_def)
next
  case (reachable_handle s r)
  from reachable_handle.IH reachable_handle.hyps(2) show ?case by (rule handle_counter_ok)
qed

text \<open>
  Claim C4, as the handler has it. In every state the server reaches, with seeds in the
  range of \<^verbatim>\<open>randint(100_000_000, 900_000_000)\<close> (both end points included): a
  missing counter is seeded and incremented, so the code is the seed plus one; an existing
  counter is incremented and the incremented value returned, unless it is 999_999_999 or
  more, in which case the counter is re-seeded, incremented once more and that value
  returned. The counter then holds the returned code, and the code lies between
  100_000_001 and 999_999_998: it has nine digits.
\<close>

theorem activation_code_issuance:
  assumes "reachable s" and "randint_seed (fst rnd)" and "randint_seed (snd rnd)"
  shows "fst (get_unique_activation_code rnd s) =
           (case activation_code_counter s of
              None \<Rightarrow> fst rnd + 1
            | Some c \<Rightarrow> if c + 1 \<ge> 999999999 then snd rnd + 1 else c + 1)
       \<and> activation_code_counter (snd (get_unique_activation_code rnd s)) =
           Some (fst (get_unique_activation_code rnd s))
       \<and> 100000001 \<le> fst (get_unique_activation_code rnd s)
       \<and> fst (get_unique_activation_code rnd s) \<le> 999999998"
proof (intro conjI)
  have ok: "counter_ok s" using assms(1) by (rule reachable_counter_ok)
  show "fst (get_unique_activation_code rnd s) =
           (case activation_code_counter s of
              None \<Rightarrow> fst rnd + 1
            | Some c \<Rightarrow> if c + 1 \<ge> 999999999 then snd rnd + 1 else c + 1)"
    using assms(2) by (simp add: get_unique_activation_code_code randint_seed_def split: option.split)
  show "activation_code_counter (snd (get_unique_activation_code rnd s)) =
           Some (fst (get_unique_activation_code rnd s))"
    by (rule get_unique_activation_code_counter)
  show "100000001 \<le> fst (get_unique_activation_code rnd s)"
    using get_unique_activation_code_in_range [OF ok assms(2) assms(3)] by simp
  show "fst (get_unique_activation_code rnd s) \<le> 999999998"
    using get_unique_activation_code_in_range [OF ok assms(2) assms(3)] by simp
qed

theorem activation_code_issuance_witness:
  "reachable initial_state \<and> randint_seed 900000000 \<and> randint_seed 100000000
   \<and> fst (get_unique_activation_code (900000000, 100000000) initial_state) = 900000001
   \<and> activation_code_counter (snd (get_unique_activation_code (900000000, 100000000) initial_state)) =
        Some 900000001
   \<and> reachable (handle (Get_code (900000000, 100000000)) initial_state)
   \<and> fst (get_unique_activation_code (900000000, 100000000)
              (handle (Get_code (900000000, 100000000)) initial_state)) = 900000002"
proof -
  have c: "activation_code_counter initial_state = None"
    by (simp add: initial_state_def)
  have r: "randint_seed 900000000 \<and> randint_seed 100000000"
    by (simp add: randint_seed_def)
  have first: "fst (get_unique_activation_code (900000000, 100000000) initial_state) = 900000001
     \<and> activation_code_counter (snd (get_unique_activation_code (900000000, 100000000) initial_state)) =
        Some 900000001"
    using activation_code_issuance [OF reachable_initial, of "(900000000, 100000000)"] r c
    by simp
  have r1: "reachable (handle (Get_code (900000000, 100000000)) initial_state)"
    by (rule reachable_handle [OF reachable_initial]) (simp add: r)
  have second: "fst (get_unique_activation_code (900000000, 100000000)
              (handle (Get_code (900000000, 100000000)) initial_state)) = 900000002"
    using activation_code_issuance [OF r1, of "(900000000, 100000000)"] r first
    by simp
  from first second r r1 show ?thesis by (simp add: reachable_initial)
qed

text \<open>
  Claim C4 as the specification words it differs from the handler at both ends. The seed
  900_000_000 is a value of \<^verbatim>\<open>randint\<close> outside the half-open interval, and the handler
  seeds the counter with it. From the counter 999_999_998 the incremented value is
  999_999_999, which is not past 999_999_999: the worded algorithm returns it, the handler
  resets and returns the new seed plus one.
\<close>

theorem activation_code_issuance_counterexample:
  "randint_seed 900000000 \<and> \<not> claimed_seed 900000000
   \<and> get_unique_activation_code (900000000, 900000000) initial_state =
       (900000001, initial_state\<lparr>activation_code_counter := Some 900000001\<rparr>)
   \<and> fst (get_unique_activation_code (100000000, 100000000)
             (initial_state\<lparr>activation_code_counter := Some 999999998\<rparr>)) = 100000001
   \<and> fst (claimed_get_unique_activation_code (100000000, 100000000)
             (initial_state\<lparr>activation_code_counter := Some 999999998\<rparr>)) = 999999999"
  by (simp add: randint_seed_def claimed_seed_def get_unique_activation_code_def
      claimed_get_unique_activation_code_def redis_exists_counter_def redis_set_counter_def
      redis_incr_counter_def initial_state_def Let_def)

subsection \<open>Runs of issuances\<close>











subsection \<open>Notifications of a new setup\<close>

lemma notify_devices_published:
  "notify_devices ids (Some d) s =
     Inr (s\<lparr>published := published s @
            replicate (length ids) (instruction_channel (device_id d), update_setup_instruction)\<rparr>)"
proof (induction ids arbitrary: s)
  case Nil
  show ?case by simp
next
  case (Cons i ids)
  show ?case
    by (simp add: Cons.IH publish_def Let_def update_setup_instruction_def replicate_append_same)
qed

lemma link_devices_last:
  "link_devices sid ids dev s = Inr (dev', s') \<Longrightarrow> ids \<noteq> [] \<Longrightarrow>
     \<exists>d. dev' = Some d \<and> device_id d = last ids"
proof (induction ids arbitrary: dev s)
  case Nil
  then show ?case by simp
next
  case (Cons i ids)
  from Cons.prems(1) obtain found where
      found: "first_device_by_id i s = Some found"
      and rec: "link_devices sid ids (Some (found\<lparr>device_setup_id := Some sid\<rparr>))
         (s\<lparr>devices := map (\<lambda>d. if device_id d = device_id (found\<lparr>device_setup_id := Some sid\<rparr>)
                then found\<lparr>device_setup_id := Some sid\<rparr> else d) (devices s)\<rparr>) = Inr (dev', s')"
    by (auto simp: Let_def split: option.splits)
  show ?case
  proof (cases "ids = []")
    case True
    with rec found show ?thesis by (auto dest: first_device_by_id_Some)
  next
    case False
    with Cons.IH [OF rec] show ?thesis by simp
  qed
qed

lemma create_setup_published:
  assumes "create_setup strptime data s = (Inr out, s')"
  shows "published s' = published s @
           replicate (length (in_devices data))
             (instruction_channel (last (in_devices data)), update_setup_instruction)"
proof -
  let ?s1 = "s\<lparr>setups := setups s @ [\<lparr>setup_id = next_setup_id s, setup_name = in_name data\<rparr>],
                next_setup_id := next_setup_id s + 1\<rparr>"
  from assms obtain s2 dev s3 where
      pl: "add_playlists strptime (next_setup_id s) (in_playlists data) ?s1 = Inr s2"
      and ln: "link_devices (next_setup_id s) (in_devices data) None s2 = Inr (dev, s3)"
      and nt: "notify_devices (in_devices data) dev s3 = Inr s'"
    unfolding create_setup_def Let_def
    by (auto split: if_splits option.splits sum.splits prod.splits)
  have p3: "published s3 = published s"
    using add_playlists_frame [OF pl] link_devices_frame [OF ln] by simp
  show ?thesis
  proof (cases "in_devices data = []")
    case True
    with nt p3 show ?thesis by simp
  next
    case False
    with link_devices_last [OF ln] obtain d where d: "dev = Some d" "device_id d = last (in_devices data)"
      by blast
    with nt p3 show ?thesis by (auto simp: notify_devices_published)
  qed
qed

text \<open>
  Claim C10. When the creation of a setup succeeds, the log of published messages grows
  by one \<open>update_setup\<close> instruction per listed device id, every one of them on the
  instruction channel of the last listed device (the row the linking loop bound last);
  the channel of any other device receives nothing; with an empty list nothing is published.
\<close>

theorem create_setup_notifies_last_device_only:
  assumes "create_setup strptime data s = (Inr out, s')"
  shows "published s' = published s @
           replicate (length (in_devices data))
             (instruction_channel (last (in_devices data)), update_setup_instruction)
       \<and> (\<forall>d. d \<noteq> last (in_devices data) \<longrightarrow>
             published_on (instruction_channel d) s' = published_on (instruction_channel d) s)
       \<and> (in_devices data = [] \<longrightarrow> published s' = published s)"
proof (intro conjI allI impI)
  show p: "published s' = published s @
           replicate (length (in_devices data))
             (instruction_channel (last (in_devices data)), update_setup_instruction)"
    using assms by (rule create_setup_published)
  show "published s' = published s" if "in_devices data = []"
    using p that by simp
  show "published_on (instruction_channel d) s' = published_on (instruction_channel d) s"
    if "d \<noteq> last (in_devices data)" for d
  proof -
    from that have "instruction_channel (last (in_devices data)) \<noteq> instruction_channel d"
      using instruction_channel_inj by blast
    then show ?thesis by (simp add: published_on_def p)
  qed
qed

lemma str_int_2: "str_int 2 = ''2''"
  by (simp add: str_int_def str_nat.simps digit_char_def)

lemma example_create_setup_succeeds:
  "\<exists>out s'. create_setup example_strptime example_setup_input example_fleet = (Inr out, s')"
  by (simp add: create_setup_def example_strptime_def example_setup_input_def example_fleet_def
      example_device_def initial_state_def days_def check_day_def first_device_by_id_def
      publish_def Let_def)

lemma example_create_setup_no_devices_succeeds:
  "\<exists>out s'. create_setup example_strptime (example_setup_input\<lparr>in_devices := []\<rparr>) example_fleet =
       (Inr out, s')"
  by (simp add: create_setup_def example_strptime_def example_setup_input_def example_fleet_def
      example_device_def initial_state_def days_def check_day_def first_device_by_id_def
      publish_def Let_def)

theorem create_setup_notifies_last_device_only_witness:
  "(\<exists>out. fst (create_setup example_strptime example_setup_input example_fleet) = Inr out)
   \<and> published (snd (create_setup example_strptime example_setup_input example_fleet)) =
       [(''device:2:instructions'', JObject [(''instruction'', JString ''update_setup'')]),
        (''device:2:instructions'', JObject [(''instruction'', JString ''update_setup'')])]
   \<and> published_on ''device:1:instructions''
        (snd (create_setup example_strptime example_setup_input example_fleet)) = []
   \<and> (\<exists>out. fst (create_setup example_strptime (example_setup_input\<lparr>in_devices := []\<rparr>)
                    example_fleet) = Inr out)
   \<and> published (snd (create_setup example_strptime (example_setup_input\<lparr>in_devices := []\<rparr>)
                       example_fleet)) = []"
proof -
  obtain out s' where r: "create_setup example_strptime example_setup_input example_fleet = (Inr out, s')"
    using example_create_setup_succeeds by blast
  obtain out0 s0 where r0: "create_setup example_strptime (example_setup_input\<lparr>in_devices := []\<rparr>)
      example_fleet = (Inr out0, s0)"
    using example_create_setup_no_devices_succeeds by blast
  have c1: "instruction_channel 1 = ''device:1:instructions''"
    by (rule instruction_channel_1)
  have c2: "instruction_channel 2 = ''device:2:instructions''"
    by (simp add: instruction_channel_def str_int_2)
  have p0: "published example_fleet = []"
    by (simp add: example_fleet_def initial_state_def)
  have d: "in_devices example_setup_input = [1, 2]"
    by (simp add: example_setup_input_def)
  from create_setup_notifies_last_device_only [OF r]
  have two: "published s' = published example_fleet @
           replicate (length (in_devices example_setup_input))
             (instruction_channel (last (in_devices example_setup_input)), update_setup_instruction)"
    and other: "published_on (instruction_channel 1) s' = published_on (instruction_channel 1) example_fleet"
    by (simp_all add: d)
  from create_setup_notifies_last_device_only [OF r0]
  have none: "published s0 = published example_fleet"
    by simp
  from two other none show ?thesis
    using r r0 by (simp add: p0 d c1 c2 published_on_def update_setup_instruction_def numeral_2_eq_2)
qed

subsection \<open>The code stream: check and subscription\<close>

lemma count_list_remove1_same:
  "x \<in> set xs \<Longrightarrow> count_list (remove1 x xs) x = count_list xs x - 1"
  by (induction xs) auto

lemma count_list_remove1_other:
  "y \<noteq> x \<Longrightarrow> count_list (remove1 x xs) y = count_list xs y"
  by (induction xs) auto

lemma count_list_pos: "x \<in> set xs \<Longrightarrow> 0 < count_list xs x"
  by (induction xs) auto

lemma get_unique_activation_code_pending:
  "pending_code_streams (snd (get_unique_activation_code rnd s)) = pending_code_streams s"
  by (simp add: get_unique_activation_code_def redis_exists_counter_def redis_set_counter_def
      redis_incr_counter_def Let_def split: option.split)

lemma create_device_pending:
  "create_device data keys now s = Some (r, s') \<Longrightarrow> pending_code_streams s' = pending_code_streams s"
  by (auto simp: create_device_def add_device_def publish_def Let_def
      split: if_splits option.splits)

lemma send_snapshot_instruction_pending:
  "pending_code_streams (snd (send_snapshot_instruction url dev_id s)) = pending_code_streams s"
  by (simp add: send_snapshot_instruction_def publish_def Let_def split: option.split)

lemma add_images_pending: "pending_code_streams (add_images pid xs s) = pending_code_streams s"
  by (induction xs arbitrary: s) simp_all

lemma add_videos_pending: "pending_code_streams (add_videos pid xs s) = pending_code_streams s"
  by (induction xs arbitrary: s) simp_all

lemma add_playlists_pending:
  "add_playlists strptime sid pls s = Inr s' \<Longrightarrow> pending_code_streams s' = pending_code_streams s"
proof (induction pls arbitrary: s)
  case Nil
  then show ?case by simp
next
  case (Cons p pls)
  from Cons.prems obtain s3 where
      rec: "add_playlists strptime sid pls s3 = Inr s'"
      and s3: "pending_code_streams s3 = pending_code_streams s"
    by (auto simp: Let_def add_images_pending add_videos_pending split: if_splits option.splits)
  from Cons.IH [OF rec] s3 show ?case by simp
qed

lemma link_devices_pending:
  "link_devices sid ids dev s = Inr (dev', s') \<Longrightarrow> pending_code_streams s' = pending_code_streams s"
proof (induction ids arbitrary: dev s)
  case Nil
  then show ?case by simp
next
  case (Cons i ids)
  from Cons.prems obtain d s1 where
      rec: "link_devices sid ids (Some d) s1 = Inr (dev', s')"
      and s1: "pending_code_streams s1 = pending_code_streams s"
    by (auto simp: Let_def split: option.splits)
  from Cons.IH [OF rec] s1 show ?case by simp
qed

lemma notify_devices_pending:
  "notify_devices ids dev s = Inr s' \<Longrightarrow> pending_code_streams s' = pending_code_streams s"
proof (induction ids arbitrary: s)
  case Nil
  then show ?case by simp
next
  case (Cons i ids)
  from Cons.prems obtain d where d: "dev = Some d"
      and rec: "notify_devices ids dev
         (publish (instruction_channel (device_id d)) (JObject [(''instruction'', JString ''update_setup'')]) s) = Inr s'"
    by (auto simp: Let_def split: option.splits)
  from Cons.IH [OF rec] show ?case by (simp add: publish_def)
qed

lemma create_setup_pending:
  "pending_code_streams (snd (create_setup strptime data s)) = pending_code_streams s"
proof -
  let ?s1 = "s\<lparr>setups := setups s @ [\<lparr>setup_id = next_setup_id s, setup_name = in_name data\<rparr>],
                next_setup_id := next_setup_id s + 1\<rparr>"
  have s1: "pending_code_streams ?s1 = pending_code_streams s" by simp
  show ?thesis
    unfolding create_setup_def Let_def
    using s1
    by (auto split: option.split sum.split prod.split
        dest!: add_playlists_pending link_devices_pending notify_devices_pending)
qed

lemma handle_serial_code_channel:
  assumes inv: "numsub s (str_int c) + count_list (pending_code_streams s) (str_int c) \<le> 1"
    and ser: "serial r s"
  shows "numsub (handle r s) (str_int c) + count_list (pending_code_streams (handle r s)) (str_int c) \<le> 1"
proof (cases r)
  case (Get_code rnd)
  with inv show ?thesis
    by (simp add: get_unique_activation_code_numsub get_unique_activation_code_pending)
next
  case (Open_code_stream code)
  show ?thesis
  proof (cases "code = str_int c")
    case True
    from ser Open_code_stream True have "count_list (pending_code_streams s) (str_int c) = 0"
      by (simp add: count_list_0_iff)
    with inv Open_code_stream True show ?thesis
      by (auto simp: get_device_status_by_code_def pubsub_numsub_def Let_def)
  next
    case False
    with inv Open_code_stream show ?thesis
      by (auto simp: get_device_status_by_code_def pubsub_numsub_def Let_def)
  qed
next
  case (Start_code_stream code)
  show ?thesis
  proof (cases "code = str_int c")
    case True
    show ?thesis
    proof (cases "code \<in> set (pending_code_streams s)")
      case in_pending: True
      then have "0 < count_list (pending_code_streams s) code" by (rule count_list_pos)
      with inv True in_pending Start_code_stream show ?thesis
        by (simp add: code_event_generator_start_def subscribe_def count_list_remove1_same)
    next
      case False
      with inv Start_code_stream show ?thesis by simp
    qed
  next
    case False
    with inv Start_code_stream show ?thesis
      by (simp add: code_event_generator_start_def subscribe_def count_list_remove1_other)
  qed
next
  case (Close_code_stream code)
  with inv show ?thesis
    by (auto simp: code_event_generator_finally_def unsubscribe_def)
next
  case (Create_device data keys now)
  show ?thesis
  proof (cases "create_device data keys now s")
    case None
    with inv Create_device show ?thesis by simp
  next
    case (Some res)
    obtain out s' where res: "res = (out, s')" by (cases res)
    from Some res have "numsub s' = numsub s" and "pending_code_streams s' = pending_code_streams s"
      using create_device_frame [of data keys now s out s']
        create_device_pending [of data keys now s out s'] by simp_all
    with inv Create_device Some res show ?thesis by simp
  qed
next
  case (Open_device_stream api_key now)
  with inv show ?thesis
    by (auto simp: get_device_from_api_key_def device_event_generator_start_def
        get_current_device_instructions_def subscribe_def sadd_online_def publish_def
        set_last_seen_def Let_def str_int_not_instruction split: option.split)
next
  case (Close_device_stream api_key now)
  with inv show ?thesis
    by (auto simp: get_device_from_api_key_def device_message_listener_cancelled_def
        device_event_generator_finally_def unsubscribe_def srem_online_def publish_def
        set_last_seen_def Let_def str_int_not_instruction split: option.split)
next
  case Open_status_stream
  with inv show ?thesis
    by (simp add: get_all_devices_status_def subscribe_def Let_def str_int_not_status)
next
  case Close_status_stream
  with inv show ?thesis
    by (simp add: status_event_generator_finally_def unsubscribe_def str_int_not_status)
next
  case (Send_snapshot url dev_id)
  with inv show ?thesis
    by (simp add: send_snapshot_instruction_frame send_snapshot_instruction_pending)
next
  case (Create_setup strptime data)
  with inv show ?thesis by (simp add: create_setup_frame create_setup_pending)
qed

lemma serially_reachable_code_channel:
  "serially_reachable s \<Longrightarrow>
     numsub s (str_int c) + count_list (pending_code_streams s) (str_int c) \<le> 1"
proof (induction rule: serially_reachable.induct)
  case serially_reachable_initial
  show ?case by (simp add: initial_state_def)
next
  case (serially_reachable_handle s r)
  from serially_reachable_handle.IH serially_reachable_handle.hyps(3)
  show ?case by (rule handle_serial_code_channel)
qed

text \<open>
  What the guard does achieve. When no code is checked while a response accepted for the
  same code has still to subscribe, the channel of an activation code never has more than
  one subscriber; and a request that reads a nonzero count is rejected with 400 and
  changes nothing, so it makes no subscription.
\<close>

lemma serial_code_channel_single_subscriber:
  assumes "serially_reachable s"
  shows "numsub s (str_int c) \<le> 1"
  using serially_reachable_code_channel [OF assms, of c] by simp

lemma code_stream_guard:
  assumes "pubsub_numsub code s \<noteq> 0"
  shows "get_device_status_by_code code s =
           Inl (HTTPException HTTP_400_BAD_REQUEST ''Code is not available pelas request another one'')
       \<and> handle (Open_code_stream code) s = s"
  using assms by (simp add: get_device_status_by_code_def Let_def)

text \<open>
  Claim C5: at most one subscriber is attached to a code's topic at any time. The handler
  reads the subscriber count (lines 70-76) and the subscription is made later, by the
  generator of the response (line 81). Two requests for the code 123456789 whose handlers
  both run before either generator both read the count 0 and are both accepted; once
  both generators have run, the channel of the code has two subscribers.
\<close>

theorem code_stream_two_subscribers:
  "get_device_status_by_code ''123456789'' initial_state = Inr ()
   \<and> get_device_status_by_code ''123456789''
        (handle (Open_code_stream ''123456789'') initial_state) = Inr ()
   \<and> reachable (handle (Start_code_stream ''123456789'') (handle (Start_code_stream ''123456789'')
        (handle (Open_code_stream ''123456789'') (handle (Open_code_stream ''123456789'') initial_state))))
   \<and> numsub (handle (Start_code_stream ''123456789'') (handle (Start_code_stream ''123456789'')
        (handle (Open_code_stream ''123456789'') (handle (Open_code_stream ''123456789'') initial_state))))
        (str_int 123456789) = 2"
proof (intro conjI)
  show "get_device_status_by_code ''123456789'' initial_state = Inr ()"
    by (simp add: get_device_status_by_code_def pubsub_numsub_def initial_state_def)
  show "get_device_status_by_code ''123456789''
        (handle (Open_code_stream ''123456789'') initial_state) = Inr ()"
    by (simp add: get_device_status_by_code_def pubsub_numsub_def initial_state_def)
  show "reachable (handle (Start_code_stream ''123456789'') (handle (Start_code_stream ''123456789'')
        (handle (Open_code_stream ''123456789'') (handle (Open_code_stream ''123456789'') initial_state))))"
    by (intro reachable_handle reachable_initial) simp_all
  show "numsub (handle (Start_code_stream ''123456789'') (handle (Start_code_stream ''123456789'')
        (handle (Open_code_stream ''123456789'') (handle (Open_code_stream ''123456789'') initial_state))))
        (str_int 123456789) = 2"
    by (simp add: str_int_123456789 get_device_status_by_code_def pubsub_numsub_def
        code_event_generator_start_def subscribe_def initial_state_def)
qed

end
